theory Spec2Isabelle
  imports Main "HOL-Library.Sublist"
begin

section \<open>Texts\<close>

text \<open>
  A Python \<open>str\<close> is a sequence of Unicode code points. A code point is modelled as a
  natural number and a text as a list of them, so that \<open>length\<close> counts what Python's
  \<open>len\<close> counts and the regular expression class \<open>\s\<close> can be given its Unicode meaning.
  \<open>py\<close> embeds an ASCII literal; other code points are written as numbers.
\<close>

type_synonym codepoint = nat
type_synonym str = "codepoint list"

definition py :: "string \<Rightarrow> str" where
  "py s = map of_char s"

definition nl :: str where
  "nl = [10]"

subsection \<open>\<open>str.replace\<close> and the operator \<open>in\<close>\<close>

text \<open>
  \<open>s.replace(old, new)\<close>: every occurrence of \<open>old\<close> in \<open>s\<close>, found from left to right
  without overlap, is replaced by \<open>new\<close>. With an empty \<open>old\<close> Python puts \<open>new\<close> before
  every code point and at the end.
\<close>

function replace :: "str \<Rightarrow> str \<Rightarrow> str \<Rightarrow> str" where
  "replace old new [] = (if old = [] then new else [])"
| "replace old new (c # cs) =
     (if old = [] then new @ c # replace old new cs
      else if prefix old (c # cs) then new @ replace old new (drop (length old) (c # cs))
      else c # replace old new cs)"
  by pat_completeness auto
termination
  by (relation "measure (\<lambda>(old, new, s). length s)") auto

text \<open>\<open>sub in s\<close> on two strings: \<open>sub\<close> occurs in \<open>s\<close> as a contiguous run.\<close>

fun str_in :: "str \<Rightarrow> str \<Rightarrow> bool" where
  "str_in sub [] = (sub = [])"
| "str_in sub (c # cs) = (prefix sub (c # cs) \<or> str_in sub cs)"

text \<open>\<open>sep.join(xs)\<close>.\<close>

fun join :: "str \<Rightarrow> str list \<Rightarrow> str" where
  "join sep [] = []"
| "join sep [x] = x"
| "join sep (x # y # ys) = x @ sep @ join sep (y # ys)"

subsection \<open>The regular expressions of the extractor\<close>

text \<open>
  The three patterns handed to \<open>re.search\<close> are sequences of one-code-point atoms (a literal,
  the class \<open>\s\<close>, a bracket set, a negated bracket set), each taken once, under a greedy
  \<open>*\<close>, or under a greedy \<open>+\<close>; one \<open>+\<close> stands inside the only capture group. The flag of
  an item says whether it is inside group 1.
\<close>

datatype atom = Chr codepoint | Whitespace | One_of "codepoint list" | None_of "codepoint list"

datatype item = Once bool atom | Many bool atom | Plus bool atom

text \<open>
  \<open>\s\<close> in a \<open>str\<close> pattern (no \<open>re.ASCII\<close> flag): the code points for which
  \<open>str.isspace\<close> holds.
\<close>

definition is_space :: "codepoint \<Rightarrow> bool" where
  "is_space c \<longleftrightarrow>
     (9 \<le> c \<and> c \<le> 13) \<or> (28 \<le> c \<and> c \<le> 32) \<or> c = 133 \<or> c = 160 \<or> c = 5760 \<or>
     (8192 \<le> c \<and> c \<le> 8202) \<or> c = 8232 \<or> c = 8233 \<or> c = 8239 \<or> c = 8287 \<or> c = 12288"

fun accepts :: "atom \<Rightarrow> codepoint \<Rightarrow> bool" where
  "accepts (Chr d) c = (c = d)"
| "accepts Whitespace c = is_space c"
| "accepts (One_of ds) c = (c \<in> set ds)"
| "accepts (None_of ds) c = (c \<notin> set ds)"

definition keep :: "bool \<Rightarrow> codepoint \<Rightarrow> str \<Rightarrow> str" where
  "keep cap c g = (if cap then c # g else g)"

text \<open>
  \<open>rmatch items s\<close> matches the pattern at the start of \<open>s\<close> the way the backtracking
  engine does: a greedy quantifier first takes one more code point and gives it back only
  when the rest of the pattern fails behind it. The result is the text of group 1.
\<close>

fun rmatch :: "item list \<Rightarrow> str \<Rightarrow> str option" where
  "rmatch [] s = Some []"
| "rmatch (Once cap a # r) [] = None"
| "rmatch (Once cap a # r) (c # cs) =
     (if accepts a c then map_option (keep cap c) (rmatch r cs) else None)"
| "rmatch (Plus cap a # r) [] = None"
| "rmatch (Plus cap a # r) (c # cs) =
     (if accepts a c then map_option (keep cap c) (rmatch (Many cap a # r) cs) else None)"
| "rmatch (Many cap a # r) [] = rmatch r []"
| "rmatch (Many cap a # r) (c # cs) =
     (if accepts a c
      then (case rmatch (Many cap a # r) cs of
              Some g \<Rightarrow> Some (keep cap c g)
            | None \<Rightarrow> rmatch r (c # cs))
      else rmatch r (c # cs))"

text \<open>\<open>re.search\<close>: the match at the leftmost position where the pattern matches.\<close>

fun search :: "item list \<Rightarrow> str \<Rightarrow> str option" where
  "search items [] = rmatch items []"
| "search items (c # cs) =
     (case rmatch items (c # cs) of Some g \<Rightarrow> Some g | None \<Rightarrow> search items cs)"

definition lits :: "str \<Rightarrow> item list" where
  "lits s = map (\<lambda>c. Once False (Chr c)) s"

section \<open>The normalizer\<close>

definition decode_html_entities :: "str \<Rightarrow> str" where
  "decode_html_entities content =
     (let content = replace (py ''&apos;'') [39] content;
          content = replace (py ''&quot;'') [34] content;
          content = replace (py ''&gt;'') (py ''>'') content;
          content = replace (py ''&lt;'') (py ''<'') content;
          content = replace (py ''&amp;'') (py ''&'') content
      in content)"

section \<open>The extractor\<close>

text \<open>\<open>Artifactory\.server\s*\(\s*['\"]([^'\"]+)['\"]\<close>\<close>

definition server_re :: "item list" where
  "server_re =
     lits (py ''Artifactory.server'') @
     [Many False Whitespace, Once False (Chr 40), Many False Whitespace,
      Once False (One_of [39, 34]), Plus True (None_of [39, 34]), Once False (One_of [39, 34])]"

definition extract_server_id :: "str \<Rightarrow> str" where
  "extract_server_id content =
     (case search server_re content of Some g \<Rightarrow> g | None \<Rightarrow> py ''ecosysjfrog'')"

text \<open>
  \<open>"pattern"\s*:\s*"([^"]+)"\<close> and \<open>"target"\s*:\s*"([^"]+)"\<close>: the two patterns differ
  in the key only.
\<close>

definition key_re :: "str \<Rightarrow> item list" where
  "key_re key =
     lits ([34] @ key @ [34]) @
     [Many False Whitespace, Once False (Chr 58), Many False Whitespace,
      Once False (Chr 34), Plus True (None_of [34]), Once False (Chr 34)]"

definition pattern_re :: "item list" where
  "pattern_re = key_re (py ''pattern'')"

definition target_re :: "item list" where
  "target_re = key_re (py ''target'')"

definition extract_upload_spec :: "str \<Rightarrow> str \<times> str" where
  "extract_upload_spec content =
     (let pattern_match = search pattern_re content;
          target_match = search target_re content;
          pattern = (case pattern_match of Some g \<Rightarrow> g | None \<Rightarrow> py ''*.txt'');
          target = (case target_match of Some g \<Rightarrow> g | None \<Rightarrow> py ''repo/'')
      in (pattern, target))"

section \<open>The synthesizer\<close>

text \<open>
  The four stage templates of \<open>convert_pipeline\<close>, each the string that the source
  appends to \<open>stages\<close>, line by line. 9989, 8594, 127881 and 10060 are the code points of the
  check mark, the arrow, the party popper and the cross mark of the source's literals.
\<close>

definition configure_stage :: "str \<Rightarrow> str \<Rightarrow> str \<Rightarrow> str" where
  \<open>configure_stage server_id server_url server_user =
     py ''        stage('Configure JFrog Server') {'' @ nl @
     py ''            steps {'' @ nl @
     py ''                script {'' @ nl @
     py ''                    echo '=== Configuring JFrog Server ==='' @ [39] @ nl @
     py ''                    jf 'config add '' @
     server_id @
     py '' --url='' @
     server_url @
     py '' --user='' @
     server_user @
     py '' --password=YOUR_PASSWORD --interactive=false'' @ [39] @ nl @
     py ''                    jf 'c use '' @
     server_id @
     [39] @ nl @
     py ''                    echo '' @ [39, 9989] @ py '' Server configured'' @ [39] @ nl @
     py ''                }'' @ nl @
     py ''            }'' @ nl @
     py ''        }''\<close>

definition ping_stage :: str where
  \<open>ping_stage =
     py ''        '' @ nl @
     py ''        stage('Ping Artifactory') {'' @ nl @
     py ''            steps {'' @ nl @
     py ''                script {'' @ nl @
     py ''                    echo '=== Testing Artifactory Connection ==='' @ [39] @ nl @
     py ''                    jf 'rt ping'' @ [39] @ nl @
     py ''                    echo '' @ [39, 9989] @ py '' Successfully connected to Artifactory!'' @ [39] @ nl @
     py ''                }'' @ nl @
     py ''            }'' @ nl @
     py ''        }''\<close>

definition upload_stage :: "str \<Rightarrow> str \<Rightarrow> str" where
  \<open>upload_stage upload_pattern upload_target =
     py ''        '' @ nl @
     py ''        stage('Upload Artifact') {'' @ nl @
     py ''            steps {'' @ nl @
     py ''                script {'' @ nl @
     py ''                    echo '=== Creating and Uploading Artifact ==='' @ [39] @ nl @
     py ''                    '' @ nl @
     py ''                    // Create test file'' @ nl @
     py ''                    sh 'echo "Build ${BUILD_NUMBER} - $(date)" > artifactory-test-${BUILD_NUMBER}.txt'' @ [39] @ nl @
     py ''                    '' @ nl @
     py ''                    // Upload (converted from Artifactory plugin spec)'' @ nl @
     py ''                    jf 'rt u '' @
     upload_pattern @
     py '' '' @
     upload_target @
     [39] @ nl @
     py ''                    '' @ nl @
     py ''                    echo '' @ [39, 9989] @ py '' Successfully uploaded artifact!'' @ [39] @ nl @
     py ''                    echo "Uploaded to: '' @
     upload_target @
     py ''"'' @ nl @
     py ''                }'' @ nl @
     py ''            }'' @ nl @
     py ''        }''\<close>

definition publish_stage :: str where
  \<open>publish_stage =
     py ''        '' @ nl @
     py ''        stage('Publish Build Info') {'' @ nl @
     py ''            steps {'' @ nl @
     py ''                script {'' @ nl @
     py ''                    echo '=== Publishing Build Info ==='' @ [39] @ nl @
     py ''                    jf 'rt bp'' @ [39] @ nl @
     py ''                    echo '' @ [39, 9989] @ py '' Build info published!'' @ [39] @ nl @
     py ''                }'' @ nl @
     py ''            }'' @ nl @
     py ''        }''\<close>

text \<open>The list \<open>stages\<close> as the source builds it: one unconditional and three guarded appends.\<close>

definition build_stages ::
  "str \<Rightarrow> str \<Rightarrow> str \<Rightarrow> str \<Rightarrow> str \<Rightarrow> bool \<Rightarrow> bool \<Rightarrow> bool \<Rightarrow> str list" where
  "build_stages server_id server_url server_user upload_pattern upload_target
       has_ping has_upload has_publish =
     (let stages = [];
          stages = stages @ [configure_stage server_id server_url server_user];
          stages = (if has_ping then stages @ [ping_stage] else stages);
          stages = (if has_upload then stages @ [upload_stage upload_pattern upload_target]
                    else stages);
          stages = (if has_publish then stages @ [publish_stage] else stages)
      in stages)"

text \<open>
  The document skeleton (the value of \<open>converted\<close>): the text before the joined stages,
  which names the server id, and the text after them.
\<close>

definition document_head :: "str \<Rightarrow> str" where
  \<open>document_head server_id =
     py ''// MIGRATED FROM ARTIFACTORY PLUGIN TO JFROG PLUGIN'' @ nl @
     py ''// Original server ID: '' @
     server_id @
     nl @
     py ''// '' @ nl @
     py ''// Conversion applied:'' @ nl @
     py ''// - Removed stage: Setup Artifactory'' @ nl @
     py ''// - Artifactory.server() '' @ [8594] @ py '' jf 'config add' + 'c use'' @ [39] @ nl @
     py ''// - server.upload(spec) '' @ [8594] @ py '' jf 'rt u pattern target'' @ [39] @ nl @
     py ''// - server.publishBuildInfo() '' @ [8594] @ py '' jf 'rt bp'' @ [39] @ nl @
     py ''// - BuildInfo objects '' @ [8594] @ py '' Removed (auto-managed)'' @ nl @
     py ''//'' @ nl @
     py ''// TODO: Replace YOUR_PASSWORD on line 24 with actual password'' @ nl @
     nl @
     py ''pipeline {'' @ nl @
     py ''    agent any'' @ nl @
     py ''    '' @ nl @
     py ''    tools {'' @ nl @
     py ''        jfrog 'jfrog-cli'' @ [39] @ nl @
     py ''    }'' @ nl @
     py ''    '' @ nl @
     py ''    stages {'' @ nl\<close>

definition document_tail :: str where
  \<open>document_tail =
     nl @
     py ''    }'' @ nl @
     py ''    '' @ nl @
     py ''    post {'' @ nl @
     py ''        success {'' @ nl @
     py ''            echo '' @ [39, 127881] @ py '' Pipeline completed successfully!'' @ [39] @ nl @
     py ''        }'' @ nl @
     py ''        failure {'' @ nl @
     py ''            echo '' @ [39, 10060] @ py '' Pipeline failed'' @ [39] @ nl @
     py ''        }'' @ nl @
     py ''    }'' @ nl @
     py ''}'' @ nl\<close>

text \<open>The four presence tests of \<open>convert_pipeline\<close>.\<close>

definition has_setup :: "str \<Rightarrow> bool" where
  \<open>has_setup content = str_in (py ''stage('Setup Artifactory')'') content\<close>

definition has_ping :: "str \<Rightarrow> bool" where
  \<open>has_ping content = str_in (py ''stage('Ping Artifactory')'') content\<close>

definition has_upload :: "str \<Rightarrow> bool" where
  \<open>has_upload content = str_in (py ''server.upload'') content\<close>

definition has_publish :: "str \<Rightarrow> bool" where
  \<open>has_publish content = str_in (py ''publishBuildInfo'') content\<close>

text \<open>What \<open>convert_pipeline\<close> returns; \<open>has_setup\<close> is computed and goes to the printed report only.\<close>

definition convert_pipeline :: "str \<Rightarrow> str \<Rightarrow> str \<Rightarrow> str" where
  "convert_pipeline content server_url server_user =
     (let server_id = extract_server_id content;
          (upload_pattern, upload_target) = extract_upload_spec content;
          setup = has_setup content;
          ping = has_ping content;
          upload = has_upload content;
          publish = has_publish content;
          stages = build_stages server_id server_url server_user upload_pattern upload_target
                     ping upload publish
      in document_head server_id @ join nl stages @ document_tail)"

text \<open>The list \<open>stages\<close> that \<open>convert_pipeline\<close> joins, as a function of its arguments.\<close>

definition pipeline_stages :: "str \<Rightarrow> str \<Rightarrow> str \<Rightarrow> str list" where
  "pipeline_stages content server_url server_user =
     (let server_id = extract_server_id content;
          (upload_pattern, upload_target) = extract_upload_spec content
      in build_stages server_id server_url server_user upload_pattern upload_target
           (has_ping content) (has_upload content) (has_publish content))"

text \<open>The default arguments of \<open>convert_pipeline\<close>, which \<open>main\<close> uses.\<close>

definition default_server_url :: str where
  "default_server_url = py ''https://ecosysjfrog.jfrog.io''"

definition default_server_user :: str where
  "default_server_user = py ''agrasth''"

text \<open>What \<open>convert_pipeline\<close> prints, line by line; a \<open>bool\<close> in an f-string reads True or False.\<close>

definition show_bool :: "bool \<Rightarrow> str" where
  "show_bool b = (if b then py ''True'' else py ''False'')"

definition convert_pipeline_prints :: "str \<Rightarrow> str list" where
  "convert_pipeline_prints content =
     (let server_id = extract_server_id content;
          (upload_pattern, upload_target) = extract_upload_spec content
      in [py ''  Server ID: '' @ server_id,
          py ''  Upload pattern: '' @ upload_pattern,
          py ''  Upload target: '' @ upload_target,
          py ''  Stages detected: Setup='' @ show_bool (has_setup content) @
          py '', Ping='' @ show_bool (has_ping content) @
          py '', Upload='' @ show_bool (has_upload content) @
          py '', Publish='' @ show_bool (has_publish content)])"

section \<open>Reading the output\<close>

text \<open>
  Reading a rendered stage block back: the name between the first \<open>stage('\<close> of the block
  and the next apostrophe.
\<close>

fun after_first :: "str \<Rightarrow> str \<Rightarrow> str option" where
  "after_first m [] = (if m = [] then Some [] else None)"
| "after_first m (c # cs) =
     (if prefix m (c # cs) then Some (drop (length m) (c # cs)) else after_first m cs)"

definition stage_title :: "str \<Rightarrow> str option" where
  "stage_title block =
     map_option (takeWhile (\<lambda>c. c \<noteq> 39)) (after_first (py ''stage('' @ [39]) block)"

section \<open>What the patterns describe\<close>

text \<open>
  The meaning of a pattern, stated without reference to the matching engine:
  \<open>denotes items w g\<close> holds when the pattern describes the text \<open>w\<close> with \<open>g\<close> the part of
  \<open>w\<close> inside group 1.
\<close>

fun denotes :: "item list \<Rightarrow> str \<Rightarrow> str \<Rightarrow> bool" where
  "denotes [] w g \<longleftrightarrow> w = [] \<and> g = []"
| "denotes (Once cap a # r) w g \<longleftrightarrow>
     (\<exists>c w' g'. w = c # w' \<and> accepts a c \<and> denotes r w' g' \<and> g = keep cap c g')"
| "denotes (Many cap a # r) w g \<longleftrightarrow>
     (\<exists>u w' g'. w = u @ w' \<and> list_all (accepts a) u \<and> denotes r w' g' \<and>
        g = (if cap then u else []) @ g')"
| "denotes (Plus cap a # r) w g \<longleftrightarrow>
     (\<exists>u w' g'. w = u @ w' \<and> u \<noteq> [] \<and> list_all (accepts a) u \<and> denotes r w' g' \<and>
        g = (if cap then u else []) @ g')"

text \<open>
  A server-constructor fragment with argument \<open>arg\<close>: the name \<open>Artifactory.server\<close>, an
  opening parenthesis and a quoted, non-empty argument without quotes, with optional
  whitespace before and after the parenthesis.
\<close>

definition server_call :: "str \<Rightarrow> str \<Rightarrow> bool" where
  "server_call w arg \<longleftrightarrow>
     (\<exists>ws1 ws2 q1 q2.
        w = py ''Artifactory.server'' @ ws1 @ [40] @ ws2 @ [q1] @ arg @ [q2] \<and>
        list_all is_space ws1 \<and> list_all is_space ws2 \<and>
        q1 \<in> {39, 34} \<and> q2 \<in> {39, 34} \<and> arg \<noteq> [] \<and> 39 \<notin> set arg \<and> 34 \<notin> set arg)"

definition has_server_call :: "str \<Rightarrow> bool" where
  "has_server_call t \<longleftrightarrow> (\<exists>pre w arg post. t = pre @ w @ post \<and> server_call w arg)"

text \<open>
  A key fragment for \<open>key\<close> with value \<open>v\<close>: the key in double quotes, a colon and a non-empty
  value in double quotes, with optional whitespace around the colon.
\<close>

definition key_field :: "str \<Rightarrow> str \<Rightarrow> str \<Rightarrow> bool" where
  "key_field key w v \<longleftrightarrow>
     (\<exists>ws1 ws2.
        w = [34] @ key @ [34] @ ws1 @ [58] @ ws2 @ [34] @ v @ [34] \<and>
        list_all is_space ws1 \<and> list_all is_space ws2 \<and> v \<noteq> [] \<and> 34 \<notin> set v)"

definition has_key_field :: "str \<Rightarrow> str \<Rightarrow> bool" where
  "has_key_field key t \<longleftrightarrow> (\<exists>pre w v post. t = pre @ w @ post \<and> key_field key w v)"

text \<open>
  Two inputs for the concrete scenario: a pipeline script with one server declaration, and
  a text that declares the server \<open>a\<close> before the server \<open>myserver\<close>.
\<close>

definition scenario_text :: str where
  \<open>scenario_text =
     py ''node { def server = Artifactory.server('myserver'); '' @
     py ''def spec = """{"files": [{"pattern": "*.zip", "target": "libs-release/"}]}"""; '' @
     py ''server.upload(spec); server.publishBuildInfo(info) }''\<close>

definition two_servers_text :: str where
  \<open>two_servers_text =
     py ''Artifactory.server('a') Artifactory.server('myserver') '' @
     py ''"pattern": "*.zip", "target": "libs-release/" server.upload publishBuildInfo''\<close>

section \<open>Facts about the string operations\<close>

lemma str_in_sublist: "str_in sub s \<longleftrightarrow> sublist sub s"
  by (induction s) (auto simp: sublist_Cons_right)







section \<open>Normalization\<close>






section \<open>The matcher finds only what the patterns describe\<close>

lemma rmatch_sound:
  "rmatch items s = Some g \<Longrightarrow> \<exists>w rest. s = w @ rest \<and> denotes items w g"
proof (induction items s arbitrary: g rule: rmatch.induct)
  case (1 s)
  then show ?case by simp
next
  case (2 cap a r)
  then show ?case by simp
next
  case (3 cap a r c cs)
  then obtain g' where a: "accepts a c" and m: "rmatch r cs = Some g'" and g: "g = keep cap c g'"
    by (auto split: if_splits)
  from "3.IH"[OF a m] obtain w rest where "cs = w @ rest" "denotes r w g'" by blast
  then have "c # cs = (c # w) @ rest \<and> denotes (Once cap a # r) (c # w) g"
    using a g by auto
  then show ?case by blast
next
  case (4 cap a r)
  then show ?case by simp
next
  case (5 cap a r c cs)
  then obtain g' where a: "accepts a c" and m: "rmatch (Many cap a # r) cs = Some g'"
    and g: "g = keep cap c g'"
    by (auto split: if_splits)
  from "5.IH"[OF a m] obtain w rest where w: "cs = w @ rest" "denotes (Many cap a # r) w g'" by blast
  then obtain u w' g'' where u: "w = u @ w'" "list_all (accepts a) u" "denotes r w' g''"
    "g' = (if cap then u else []) @ g''" by auto
  have "denotes (Plus cap a # r) ((c # u) @ w') g"
    unfolding denotes.simps using a g u by (intro exI[of _ "c # u"] exI[of _ w'] exI[of _ g'']) (simp add: keep_def)
  then show ?case using w u by (intro exI[of _ "(c # u) @ w'"] exI[of _ rest]) simp
next
  case (6 cap a r)
  from "6.IH"[OF "6.prems"[simplified]] obtain w rest where w: "[] = w @ rest" "denotes r w g" by blast
  have "denotes (Many cap a # r) w g"
    unfolding denotes.simps using w by (intro exI[of _ "[]"] exI[of _ w] exI[of _ g]) simp
  then show ?case using w by blast
next
  case (7 cap a r c cs)
  show ?case
  proof (cases "accepts a c \<and> rmatch (Many cap a # r) cs \<noteq> None")
    case True
    then obtain g' where a: "accepts a c" and m: "rmatch (Many cap a # r) cs = Some g'" by auto
    with "7.prems" have g: "g = keep cap c g'" by simp
    from "7.IH"(1)[OF a m] obtain w rest where w: "cs = w @ rest" "denotes (Many cap a # r) w g'" by blast
    then obtain u w' g'' where u: "w = u @ w'" "list_all (accepts a) u" "denotes r w' g''"
      "g' = (if cap then u else []) @ g''" by auto
    have "denotes (Many cap a # r) ((c # u) @ w') g"
      unfolding denotes.simps using a g u by (intro exI[of _ "c # u"] exI[of _ w'] exI[of _ g'']) (simp add: keep_def)
    then show ?thesis using w u by (intro exI[of _ "(c # u) @ w'"] exI[of _ rest]) simp
  next
    case False
    then have m: "rmatch r (c # cs) = Some g" using "7.prems" by (auto split: if_splits)
    have "\<exists>w rest. c # cs = w @ rest \<and> denotes r w g"
    proof (cases "accepts a c")
      case True
      with False have "rmatch (Many cap a # r) cs = None" by simp
      from "7.IH"(2)[OF True this m] show ?thesis .
    next
      case False
      from "7.IH"(3)[OF False m] show ?thesis .
    qed
    then obtain w rest where w: "c # cs = w @ rest" "denotes r w g" by blast
    have "denotes (Many cap a # r) w g"
      unfolding denotes.simps using w by (intro exI[of _ "[]"] exI[of _ w] exI[of _ g]) simp
    then show ?thesis using w by blast
  qed
qed

lemma search_sound:
  "search items s = Some g \<Longrightarrow> \<exists>pre w post. s = pre @ w @ post \<and> denotes items w g"
proof (induction s)
  case Nil
  then have "rmatch items [] = Some g" by simp
  from rmatch_sound[OF this] show ?case by (metis append_Nil)
next
  case (Cons c cs)
  show ?case
  proof (cases "rmatch items (c # cs)")
    case None
    with Cons.prems have "search items cs = Some g" by simp
    from Cons.IH[OF this] obtain pre w post where "cs = pre @ w @ post" "denotes items w g" by blast
    then have "c # cs = (c # pre) @ w @ post \<and> denotes items w g" by simp
    then show ?thesis by blast
  next
    case (Some g')
    with Cons.prems have "rmatch items (c # cs) = Some g" by simp
    from rmatch_sound[OF this] show ?thesis by (metis append_Nil)
  qed
qed

lemma denotes_lits:
  "denotes (lits l @ r) w g \<longleftrightarrow> (\<exists>w'. w = l @ w' \<and> denotes r w' g)"
  by (induction l arbitrary: w) (auto simp: lits_def keep_def)

lemma all_whitespace: "list_all (accepts Whitespace) u = list_all is_space u"
  by (simp add: list_all_iff)

lemma all_none_of: "list_all (accepts (None_of ds)) g \<longleftrightarrow> set g \<inter> set ds = {}"
  by (auto simp: list_all_iff)

lemma denotes_server:
  assumes "denotes server_re w g"
  shows "server_call w g"
proof -
  from assms obtain ws1 ws2 q1 q2 where
    "w = py ''Artifactory.server'' @ ws1 @ [40] @ ws2 @ [q1] @ g @ [q2]"
    "list_all is_space ws1" "list_all is_space ws2" "q1 \<in> {39, 34}" "q2 \<in> {39, 34}"
    "g \<noteq> []" "set g \<inter> {39, 34} = {}"
    unfolding server_re_def denotes_lits
    by (auto simp: keep_def all_whitespace all_none_of)
  then show ?thesis
    unfolding server_call_def by blast
qed

lemma denotes_key:
  assumes "denotes (key_re key) w g"
  shows "key_field key w g"
proof -
  from assms obtain ws1 ws2 where
    "w = [34] @ key @ [34] @ ws1 @ [58] @ ws2 @ [34] @ g @ [34]"
    "list_all is_space ws1" "list_all is_space ws2" "g \<noteq> []" "set g \<inter> {34} = {}"
    unfolding key_re_def denotes_lits
    by (auto simp: keep_def all_whitespace all_none_of)
  then show ?thesis
    unfolding key_field_def by blast
qed

lemma search_server_call:
  assumes "search server_re t = Some g"
  shows "\<exists>pre w post. t = pre @ w @ post \<and> server_call w g"
  using search_sound[OF assms] denotes_server by blast

lemma search_key_field:
  assumes "search (key_re key) t = Some g"
  shows "\<exists>pre w post. t = pre @ w @ post \<and> key_field key w g"
  using search_sound[OF assms] denotes_key by blast

section \<open>The matcher finds every fragment\<close>

lemma rmatch_many_complete:
  assumes r: "\<And>s. \<exists>g. rmatch r (w' @ s) = Some g"
    and u: "list_all (accepts a) u"
  shows "\<exists>g. rmatch (Many cap a # r) (u @ w' @ s) = Some g"
  using u
proof (induction u)
  case Nil
  from r obtain g where g: "rmatch r (w' @ s) = Some g" by blast
  show ?case
  proof (cases "w' @ s")
    case Nil
    then show ?thesis using g by simp
  next
    case (Cons c cs)
    then show ?thesis using g by (cases "rmatch (Many cap a # r) cs") auto
  qed
next
  case (Cons c u)
  then obtain g where "rmatch (Many cap a # r) (u @ w' @ s) = Some g" by auto
  moreover have "accepts a c" using Cons.prems by simp
  ultimately show ?case by simp
qed

lemma rmatch_complete:
  "denotes items w g \<Longrightarrow> \<exists>g'. rmatch items (w @ s) = Some g'"
proof (induction items arbitrary: w g s)
  case Nil
  then show ?case by simp
next
  case (Cons i r)
  show ?case
  proof (cases i)
    case (Once cap a)
    with Cons.prems obtain c w' g1 where
      "w = c # w'" "accepts a c" "denotes r w' g1" by auto
    then show ?thesis using Once Cons.IH[of w' g1 s] by auto
  next
    case (Many cap a)
    with Cons.prems obtain u w' g1 where
      w: "w = u @ w'" "list_all (accepts a) u" "denotes r w' g1" by auto
    have "\<exists>g. rmatch (Many cap a # r) (u @ w' @ s) = Some g"
      by (rule rmatch_many_complete) (use Cons.IH[OF w(3)] w(2) in auto)
    then show ?thesis using Many w by simp
  next
    case (Plus cap a)
    with Cons.prems obtain u w' g1 where
      w: "w = u @ w'" "u \<noteq> []" "list_all (accepts a) u" "denotes r w' g1" by auto
    then obtain c u' where u: "u = c # u'" by (cases u) auto
    have "\<exists>g. rmatch (Many cap a # r) (u' @ w' @ s) = Some g"
      by (rule rmatch_many_complete) (use Cons.IH[OF w(4)] w(3) u in auto)
    then show ?thesis using Plus w u by auto
  qed
qed

lemma search_complete:
  "denotes items w g \<Longrightarrow> \<exists>g'. search items (pre @ w @ post) = Some g'"
proof (induction pre)
  case Nil
  from rmatch_complete[OF this, of post] obtain g' where "rmatch items (w @ post) = Some g'"
    by blast
  then show ?case by (cases "w @ post") auto
next
  case (Cons c pre)
  then show ?case by (cases "rmatch items (c # pre @ w @ post)") auto
qed

lemma denotes_OnceI:
  "accepts a c \<Longrightarrow> denotes r w g \<Longrightarrow> denotes (Once cap a # r) (c # w) (keep cap c g)"
  by auto

lemma denotes_ManyI:
  "list_all (accepts a) u \<Longrightarrow> denotes r w g \<Longrightarrow>
   denotes (Many cap a # r) (u @ w) ((if cap then u else []) @ g)"
  unfolding denotes.simps by blast

lemma denotes_PlusI:
  "u \<noteq> [] \<Longrightarrow> list_all (accepts a) u \<Longrightarrow> denotes r w g \<Longrightarrow>
   denotes (Plus cap a # r) (u @ w) ((if cap then u else []) @ g)"
  unfolding denotes.simps by blast

lemma server_call_denotes:
  assumes "server_call w g"
  shows "denotes server_re w g"
proof -
  from assms obtain ws1 ws2 q1 q2 where
    w: "w = py ''Artifactory.server'' @ ws1 @ [40] @ ws2 @ [q1] @ g @ [q2]"
    and p: "list_all is_space ws1" "list_all is_space ws2" "q1 \<in> {39, 34}" "q2 \<in> {39, 34}"
    "g \<noteq> []" "39 \<notin> set g" "34 \<notin> set g"
    unfolding server_call_def by blast
  have d1: "denotes [Once False (One_of [39, 34])] [q2] []"
    using p by (simp add: keep_def)
  have "list_all (accepts (None_of [39, 34])) g"
    using p by (simp add: all_none_of)
  from denotes_PlusI[OF \<open>g \<noteq> []\<close> this d1, of True]
  have d2: "denotes [Plus True (None_of [39, 34]), Once False (One_of [39, 34])] (g @ [q2]) g"
    by simp
  have "accepts (One_of [39, 34]) q1" using p by auto
  from denotes_OnceI[OF this d2, of False]
  have d3: "denotes [Once False (One_of [39, 34]), Plus True (None_of [39, 34]),
      Once False (One_of [39, 34])] (q1 # g @ [q2]) g"
    by (simp add: keep_def)
  have "list_all (accepts Whitespace) ws2" using p by (simp add: all_whitespace)
  from denotes_ManyI[OF this d3, of False]
  have d4: "denotes [Many False Whitespace, Once False (One_of [39, 34]),
      Plus True (None_of [39, 34]), Once False (One_of [39, 34])] (ws2 @ q1 # g @ [q2]) g"
    by simp
  have "accepts (Chr 40) 40" by simp
  from denotes_OnceI[OF this d4, of False]
  have d5: "denotes [Once False (Chr 40), Many False Whitespace, Once False (One_of [39, 34]),
      Plus True (None_of [39, 34]), Once False (One_of [39, 34])] (40 # ws2 @ q1 # g @ [q2]) g"
    by (simp add: keep_def)
  have "list_all (accepts Whitespace) ws1" using p by (simp add: all_whitespace)
  from denotes_ManyI[OF this d5, of False]
  have "denotes [Many False Whitespace, Once False (Chr 40), Many False Whitespace,
      Once False (One_of [39, 34]), Plus True (None_of [39, 34]), Once False (One_of [39, 34])]
      (ws1 @ 40 # ws2 @ q1 # g @ [q2]) g"
    by simp
  then show ?thesis
    unfolding server_re_def denotes_lits w by simp
qed

lemma has_server_call_iff: "has_server_call t \<longleftrightarrow> search server_re t \<noteq> None"
proof
  assume "has_server_call t"
  then obtain pre w arg post where "t = pre @ w @ post" "server_call w arg"
    unfolding has_server_call_def by blast
  then show "search server_re t \<noteq> None"
    using search_complete[OF server_call_denotes, of w arg pre post] by auto
next
  assume "search server_re t \<noteq> None"
  then obtain g where "search server_re t = Some g" by blast
  from search_server_call[OF this] show "has_server_call t"
    unfolding has_server_call_def by blast
qed


lemma key_field_denotes:
  assumes "key_field key w g"
  shows "denotes (key_re key) w g"
proof -
  from assms obtain ws1 ws2 where
    w: "w = [34] @ key @ [34] @ ws1 @ [58] @ ws2 @ [34] @ g @ [34]"
    and p: "list_all is_space ws1" "list_all is_space ws2" "g \<noteq> []" "34 \<notin> set g"
    unfolding key_field_def by blast
  have d1: "denotes [Once False (Chr 34)] [34] []"
    by (simp add: keep_def)
  have "list_all (accepts (None_of [34])) g"
    using p by (simp add: all_none_of)
  from denotes_PlusI[OF \<open>g \<noteq> []\<close> this d1, of True]
  have d2: "denotes [Plus True (None_of [34]), Once False (Chr 34)] (g @ [34]) g"
    by simp
  have q: "accepts (Chr 34) 34" by simp
  from denotes_OnceI[OF q d2, of False]
  have d3: "denotes [Once False (Chr 34), Plus True (None_of [34]), Once False (Chr 34)]
      (34 # g @ [34]) g"
    by (simp add: keep_def)
  have "list_all (accepts Whitespace) ws2" using p by (simp add: all_whitespace)
  from denotes_ManyI[OF this d3, of False]
  have d4: "denotes [Many False Whitespace, Once False (Chr 34), Plus True (None_of [34]),
      Once False (Chr 34)] (ws2 @ 34 # g @ [34]) g"
    by simp
  have "accepts (Chr 58) 58" by simp
  from denotes_OnceI[OF this d4, of False]
  have d5: "denotes [Once False (Chr 58), Many False Whitespace, Once False (Chr 34),
      Plus True (None_of [34]), Once False (Chr 34)] (58 # ws2 @ 34 # g @ [34]) g"
    by (simp add: keep_def)
  have "list_all (accepts Whitespace) ws1" using p by (simp add: all_whitespace)
  from denotes_ManyI[OF this d5, of False]
  have "denotes [Many False Whitespace, Once False (Chr 58), Many False Whitespace,
      Once False (Chr 34), Plus True (None_of [34]), Once False (Chr 34)]
      (ws1 @ 58 # ws2 @ 34 # g @ [34]) g"
    by simp
  then have "denotes (lits ([34] @ key @ [34]) @ [Many False Whitespace, Once False (Chr 58),
      Many False Whitespace, Once False (Chr 34), Plus True (None_of [34]), Once False (Chr 34)])
      (([34] @ key @ [34]) @ ws1 @ 58 # ws2 @ 34 # g @ [34]) g"
    unfolding denotes_lits by blast
  then show ?thesis
    unfolding key_re_def w by simp
qed

lemma has_key_field_iff: "has_key_field key t \<longleftrightarrow> search (key_re key) t \<noteq> None"
proof
  assume "has_key_field key t"
  then obtain pre w v post where "t = pre @ w @ post" "key_field key w v"
    unfolding has_key_field_def by blast
  then show "search (key_re key) t \<noteq> None"
    using search_complete[OF key_field_denotes, of key w v pre post] by auto
next
  assume "search (key_re key) t \<noteq> None"
  then obtain g where "search (key_re key) t = Some g" by blast
  from search_key_field[OF this] show "has_key_field key t"
    unfolding has_key_field_def by blast
qed

section \<open>Extraction\<close>

lemma server_id_nonempty: "extract_server_id t \<noteq> []"
proof (cases "search server_re t")
  case None
  then show ?thesis by (simp add: extract_server_id_def py_def)
next
  case (Some g)
  from search_server_call[OF this] have "g \<noteq> []" by (auto simp: server_call_def)
  then show ?thesis using Some by (simp add: extract_server_id_def)
qed

lemma key_value_nonempty: "search (key_re key) t = Some g \<Longrightarrow> g \<noteq> []"
  using search_key_field by (auto simp: key_field_def)

lemma upload_pattern_nonempty: "fst (extract_upload_spec t) \<noteq> []"
  using key_value_nonempty[of "py ''pattern''" t]
  by (auto simp: extract_upload_spec_def pattern_re_def py_def split: option.splits)

lemma upload_target_nonempty: "snd (extract_upload_spec t) \<noteq> []"
  using key_value_nonempty[of "py ''target''" t]
  by (auto simp: extract_upload_spec_def target_re_def py_def split: option.splits)

text \<open>
  C5. The extractor has no failing path: \<open>re.search\<close> returns a match or \<open>None\<close>, group 1
  takes part in every match, and the model is a total function. For every text the three
  extracted strings are non-empty (a match captures at least one code point, and the
  fallback literals are non-empty); on the empty text all three are the fallbacks.
\<close>

theorem extraction_total:
  "extract_server_id t \<noteq> [] \<and>
   fst (extract_upload_spec t) \<noteq> [] \<and>
   snd (extract_upload_spec t) \<noteq> [] \<and>
   extract_server_id [] = py ''ecosysjfrog'' \<and>
   extract_upload_spec [] = (py ''*.txt'', py ''repo/'')"
proof -
  have "extract_server_id [] = py ''ecosysjfrog''"
    by (simp add: extract_server_id_def server_re_def lits_def py_def)
  moreover have "extract_upload_spec [] = (py ''*.txt'', py ''repo/'')"
    by (simp add: extract_upload_spec_def pattern_re_def target_re_def key_re_def lits_def py_def)
  ultimately show ?thesis
    using server_id_nonempty upload_pattern_nonempty upload_target_nonempty by blast
qed

text \<open>C5 at a text whose three fragments all have empty values.\<close>

theorem extraction_total_witness:
  \<open>extract_server_id (py ''Artifactory.server("") "pattern": "", "target":'') \<noteq> [] \<and>
   fst (extract_upload_spec (py ''Artifactory.server("") "pattern": "", "target":'')) \<noteq> [] \<and>
   snd (extract_upload_spec (py ''Artifactory.server("") "pattern": "", "target":'')) \<noteq> []\<close>
  using extraction_total [of \<open>py ''Artifactory.server("") "pattern": "", "target":''\<close>] by blast

text \<open>
  C6. A text with no server-constructor fragment gives the server id \<open>ecosysjfrog\<close>, a text
  with no \<open>"pattern"\<close> key fragment gives the pattern \<open>*.txt\<close>, and a text with no
  \<open>"target"\<close> key fragment gives the target \<open>repo/\<close>, each independently of the other two.
\<close>

theorem default_fallbacks:
  "(\<not> has_server_call t \<longrightarrow> extract_server_id t = py ''ecosysjfrog'') \<and>
   (\<not> has_key_field (py ''pattern'') t \<longrightarrow> fst (extract_upload_spec t) = py ''*.txt'') \<and>
   (\<not> has_key_field (py ''target'') t \<longrightarrow> snd (extract_upload_spec t) = py ''repo/'')"
proof (intro conjI impI)
  assume "\<not> has_server_call t"
  then have "search server_re t = None"
    using search_server_call[of t] unfolding has_server_call_def by (cases "search server_re t") blast+
  then show "extract_server_id t = py ''ecosysjfrog''"
    by (simp add: extract_server_id_def)
next
  assume "\<not> has_key_field (py ''pattern'') t"
  then have "search pattern_re t = None"
    using search_key_field[of "py ''pattern''" t] unfolding has_key_field_def pattern_re_def
    by (cases "search (key_re (py ''pattern'')) t") blast+
  then show "fst (extract_upload_spec t) = py ''*.txt''"
    by (simp add: extract_upload_spec_def)
next
  assume "\<not> has_key_field (py ''target'') t"
  then have "search target_re t = None"
    using search_key_field[of "py ''target''" t] unfolding has_key_field_def target_re_def
    by (cases "search (key_re (py ''target'')) t") blast+
  then show "snd (extract_upload_spec t) = py ''repo/''"
    by (simp add: extract_upload_spec_def)
qed

text \<open>
  C6 at a text with none of the three fragments, and at a text with a pattern field only,
  where the pattern is extracted and the other two fall back.
\<close>

theorem default_fallbacks_witness:
  \<open>\<not> has_server_call (py ''echo hello'') \<and>
   \<not> has_key_field (py ''pattern'') (py ''echo hello'') \<and>
   \<not> has_key_field (py ''target'') (py ''echo hello'') \<and>
   extract_server_id (py ''echo hello'') = py ''ecosysjfrog'' \<and>
   extract_upload_spec (py ''echo hello'') = (py ''*.txt'', py ''repo/'') \<and>
   \<not> has_server_call (py ''"pattern": "*.zip"'') \<and>
   \<not> has_key_field (py ''target'') (py ''"pattern": "*.zip"'') \<and>
   extract_server_id (py ''"pattern": "*.zip"'') = py ''ecosysjfrog'' \<and>
   extract_upload_spec (py ''"pattern": "*.zip"'') = (py ''*.zip'', py ''repo/'')\<close>
proof -
  have a: \<open>\<not> has_server_call (py ''echo hello'')\<close>
    unfolding has_server_call_iff by (simp add: server_re_def lits_def py_def)
  have b: \<open>\<not> has_key_field (py ''pattern'') (py ''echo hello'')\<close>
    unfolding has_key_field_iff by (simp add: key_re_def lits_def py_def)
  have c: \<open>\<not> has_key_field (py ''target'') (py ''echo hello'')\<close>
    unfolding has_key_field_iff by (simp add: key_re_def lits_def py_def)
  have d: \<open>\<not> has_server_call (py ''"pattern": "*.zip"'')\<close>
    unfolding has_server_call_iff by (simp add: server_re_def lits_def py_def)
  have e: \<open>\<not> has_key_field (py ''target'') (py ''"pattern": "*.zip"'')\<close>
    unfolding has_key_field_iff by (simp add: key_re_def lits_def py_def)
  have f: \<open>fst (extract_upload_spec (py ''"pattern": "*.zip"'')) = py ''*.zip''\<close>
    by (simp add: extract_upload_spec_def pattern_re_def target_re_def key_re_def lits_def
        keep_def is_space_def py_def)
  show ?thesis
    using a b c d e f default_fallbacks [of \<open>py ''echo hello''\<close>]
      default_fallbacks [of \<open>py ''"pattern": "*.zip"''\<close>]
    by (simp add: prod_eq_iff)
qed

text \<open>
  C10. The server pattern does not match at \<open>Artifactory.server('')\<close>, whatever follows it:
  after the opening quote the capture group needs a code point that is not a quote. So a
  text that holds this call and no server-constructor fragment gets the fallback
  \<open>ecosysjfrog\<close>, which is not empty.
\<close>

theorem empty_server_argument:
  assumes "t = pre @ py ''Artifactory.server('' @ [39, 39, 41] @ post"
    and "\<not> has_server_call t"
  shows "rmatch server_re (py ''Artifactory.server('' @ [39, 39, 41] @ post) = None \<and>
         extract_server_id t = py ''ecosysjfrog'' \<and>
         extract_server_id t \<noteq> []"
proof -
  have a: "rmatch server_re (py ''Artifactory.server('' @ [39, 39, 41] @ post) = None"
    by (simp add: server_re_def lits_def py_def is_space_def)
  have "search server_re t = None"
    using assms(2) by (simp add: has_server_call_iff)
  then have b: "extract_server_id t = py ''ecosysjfrog''"
    by (simp add: extract_server_id_def)
  then have "extract_server_id t \<noteq> []"
    by (simp add: py_def)
  with a b show ?thesis by blast
qed

text \<open>
  C10 at a text with the empty-argument call in the middle.
\<close>

theorem empty_server_argument_witness:
  \<open>py ''s = Artifactory.server('' @ [39, 39, 41] @ py '' // none''
     = py ''s = '' @ py ''Artifactory.server('' @ [39, 39, 41] @ py '' // none'' \<and>
   \<not> has_server_call (py ''s = Artifactory.server('' @ [39, 39, 41] @ py '' // none'') \<and>
   extract_server_id (py ''s = Artifactory.server('' @ [39, 39, 41] @ py '' // none'')
     = py ''ecosysjfrog''\<close>
proof -
  let ?t = \<open>py ''s = Artifactory.server('' @ [39, 39, 41] @ py '' // none''\<close>
  have h1: \<open>?t = py ''s = '' @ py ''Artifactory.server('' @ [39, 39, 41] @ py '' // none''\<close>
    by (simp add: py_def)
  have h2: "\<not> has_server_call ?t"
    unfolding has_server_call_iff
    by (simp add: server_re_def lits_def py_def is_space_def keep_def)
  show ?thesis
    using h1 h2 empty_server_argument [OF h1 h2] by blast
qed

section \<open>Synthesis\<close>

lemma str_in_trans: "str_in a b \<Longrightarrow> str_in b c \<Longrightarrow> str_in a c"
  unfolding str_in_sublist by (rule sublist_order.order_trans)

lemma convert_pipeline_stages:
  "convert_pipeline t u v =
     document_head (extract_server_id t) @ join nl (pipeline_stages t u v) @ document_tail"
  by (simp add: convert_pipeline_def pipeline_stages_def Let_def case_prod_beta)

lemma build_stages_eq:
  "build_stages sid u v p tg a b c =
     configure_stage sid u v # (if a then [ping_stage] else []) @
     (if b then [upload_stage p tg] else []) @ (if c then [publish_stage] else [])"
  by (simp add: build_stages_def)

lemma pipeline_stages_eq:
  "pipeline_stages t u v =
     configure_stage (extract_server_id t) u v #
     (if has_ping t then [ping_stage] else []) @
     (if has_upload t then [upload_stage (fst (extract_upload_spec t)) (snd (extract_upload_spec t))]
      else []) @
     (if has_publish t then [publish_stage] else [])"
  by (simp add: pipeline_stages_def build_stages_eq Let_def case_prod_beta)

lemma title_configure:
  "stage_title (configure_stage sid u v) = Some (py ''Configure JFrog Server'')"
  by (simp add: stage_title_def configure_stage_def py_def nl_def)


lemma title_upload: "stage_title (upload_stage p tg) = Some (py ''Upload Artifact'')"
  by (simp add: stage_title_def upload_stage_def py_def nl_def)

lemma title_publish: "stage_title publish_stage = Some (py ''Publish Build Info'')"
  by (simp add: stage_title_def publish_stage_def py_def nl_def)

lemma sublist_join: "x \<in> set xs \<Longrightarrow> sublist x (join sep xs)"
proof (induction sep xs rule: join.induct)
  case (1 sep)
  then show ?case by simp
next
  case (2 sep y)
  then show ?case by simp
next
  case (3 sep y z zs)
  show ?case
  proof (cases "x = y")
    case True
    then show ?thesis by simp
  next
    case False
    with 3 have "sublist x (join sep (z # zs))" by simp
    then have "sublist x ((y @ sep) @ join sep (z # zs))"
      by (rule sublist_order.order_trans) (rule suffix_imp_sublist, simp add: suffix_def)
    then show ?thesis by simp
  qed
qed






text \<open>
  C7. Normalizing \<open>Artifactory.server(&apos;srv1&apos;)\<close> and extracting the server id gives
  \<open>srv1\<close>.
\<close>

theorem entity_decoding_scenario:
  \<open>extract_server_id (decode_html_entities (py ''Artifactory.server(&apos;srv1&apos;)'')) = py ''srv1''\<close>
  by (simp add: py_def extract_server_id_def decode_html_entities_def server_re_def lits_def
      keep_def is_space_def)

lemma configure_stage_password:
  \<open>str_in
     (py ''jf 'config add '' @ sid @ py '' --url='' @ u @ py '' --user='' @ v @
      py '' --password=YOUR_PASSWORD --interactive=false'' @ [39])
     (configure_stage sid u v)\<close>
proof -
  have "\<exists>a b. configure_stage sid u v =
      a @ (py ''jf 'config add '' @ sid @ py '' --url='' @ u @ py '' --user='' @ v @
      py '' --password=YOUR_PASSWORD --interactive=false'' @ [39]) @ b"
    unfolding configure_stage_def
    by (intro exI[of _ \<open>py ''        stage('Configure JFrog Server') {'' @ nl @
     py ''            steps {'' @ nl @
     py ''                script {'' @ nl @
     py ''                    echo '=== Configuring JFrog Server ==='' @ [39] @ nl @
     py ''                    ''\<close>] exI) (simp add: py_def)
  then show ?thesis by (auto simp: str_in_sublist sublist_def)
qed

text \<open>
  C8. For every input the first stage block is the Configure block, the Configure block is
  part of the returned document, and its \<open>config add\<close> command line carries the password slot
  with the literal \<open>YOUR_PASSWORD\<close>: the placeholder is always in the output and nothing else
  is ever put in its place.
\<close>

theorem credential_placeholder:
  \<open>hd (pipeline_stages t u v) = configure_stage (extract_server_id t) u v \<and>
   str_in (configure_stage (extract_server_id t) u v) (convert_pipeline t u v) \<and>
   str_in
     (py ''jf 'config add '' @ extract_server_id t @ py '' --url='' @ u @ py '' --user='' @ v @
      py '' --password=YOUR_PASSWORD --interactive=false'' @ [39])
     (configure_stage (extract_server_id t) u v) \<and>
   str_in (py ''--password=YOUR_PASSWORD'') (convert_pipeline t u v)\<close>
proof -
  let ?c = "configure_stage (extract_server_id t) u v"
  let ?line = \<open>py ''jf 'config add '' @ extract_server_id t @ py '' --url='' @ u @ py '' --user='' @ v @
      py '' --password=YOUR_PASSWORD --interactive=false'' @ [39]\<close>
  have a: "hd (pipeline_stages t u v) = ?c"
    by (simp add: pipeline_stages_eq)
  have "?c \<in> set (pipeline_stages t u v)"
    by (simp add: pipeline_stages_eq)
  then have "sublist ?c (join nl (pipeline_stages t u v))"
    by (rule sublist_join)
  then have b: "str_in ?c (convert_pipeline t u v)"
    unfolding convert_pipeline_stages str_in_sublist sublist_def by (metis append.assoc)
  have c: "str_in ?line ?c"
    by (rule configure_stage_password)
  have \<open>str_in (py ''--password=YOUR_PASSWORD'') ?line\<close>
    unfolding str_in_sublist sublist_def
    by (intro exI[of _ \<open>py ''jf 'config add '' @ extract_server_id t @ py '' --url='' @ u @ py '' --user='' @ v @ py '' ''\<close>]
          exI[of _ \<open>py '' --interactive=false'' @ [39]\<close>]) (simp add: py_def)
  then have d: \<open>str_in (py ''--password=YOUR_PASSWORD'') (convert_pipeline t u v)\<close>
    using b c str_in_trans by blast
  show ?thesis using a b c d by blast
qed

text \<open>
  C8 at an input that names the server \<open>srv1\<close>, with the default URL and user.
\<close>

theorem credential_placeholder_witness:
  \<open>str_in (py ''--password=YOUR_PASSWORD'')
     (convert_pipeline (py ''Artifactory.server('srv1')'') default_server_url default_server_user) \<and>
   str_in
     (py ''jf 'config add srv1 --url=https://ecosysjfrog.jfrog.io --user=agrasth --password=YOUR_PASSWORD --interactive=false'' @ [39])
     (configure_stage (py ''srv1'') default_server_url default_server_user)\<close>
proof -
  have sid: \<open>extract_server_id (py ''Artifactory.server('srv1')'') = py ''srv1''\<close>
    by (simp add: py_def extract_server_id_def server_re_def lits_def keep_def is_space_def)
  show ?thesis
    using credential_placeholder [of \<open>py ''Artifactory.server('srv1')''\<close>
        default_server_url default_server_user]
    by (simp add: sid [unfolded py_def, simplified] default_server_url_def default_server_user_def py_def)
qed

text \<open>
  C9. Two inputs with the same server id, upload pattern, upload target, Ping flag, upload
  flag and publish flag give the same document, whether or not the Setup marker occurs in
  them.
\<close>

theorem setup_noninterference:
  assumes "extract_server_id t1 = extract_server_id t2"
    and "extract_upload_spec t1 = extract_upload_spec t2"
    and "has_ping t1 = has_ping t2"
    and "has_upload t1 = has_upload t2"
    and "has_publish t1 = has_publish t2"
  shows "convert_pipeline t1 u v = convert_pipeline t2 u v"
  using assms by (simp add: convert_pipeline_def)

text \<open>
  C9 at two inputs that differ in the Setup marker only: the printed report differs, the
  returned document does not.
\<close>

theorem setup_noninterference_witness:
  \<open>has_setup (py ''stage('Setup Artifactory') server.upload'') \<and>
   \<not> has_setup (py ''stage('Build') server.upload'') \<and>
   convert_pipeline_prints (py ''stage('Setup Artifactory') server.upload'')
     \<noteq> convert_pipeline_prints (py ''stage('Build') server.upload'') \<and>
   convert_pipeline (py ''stage('Setup Artifactory') server.upload'')
       default_server_url default_server_user =
     convert_pipeline (py ''stage('Build') server.upload'')
       default_server_url default_server_user\<close>
proof -
  let ?a = \<open>py ''stage('Setup Artifactory') server.upload''\<close>
  let ?b = \<open>py ''stage('Build') server.upload''\<close>
  have s: "has_setup ?a" "\<not> has_setup ?b"
    by (simp_all add: has_setup_def py_def)
  have h1: "extract_server_id ?a = extract_server_id ?b"
    by (simp add: py_def extract_server_id_def server_re_def lits_def)
  have h2: "extract_upload_spec ?a = extract_upload_spec ?b"
    by (simp add: py_def extract_upload_spec_def pattern_re_def target_re_def key_re_def lits_def)
  have h3: "has_ping ?a = has_ping ?b"
    by (simp add: has_ping_def py_def)
  have h4: "has_upload ?a = has_upload ?b"
    by (simp add: has_upload_def py_def)
  have h5: "has_publish ?a = has_publish ?b"
    by (simp add: has_publish_def py_def)
  have p: "convert_pipeline_prints ?a \<noteq> convert_pipeline_prints ?b"
    using s by (simp add: convert_pipeline_prints_def Let_def case_prod_beta show_bool_def py_def)
  show ?thesis
    using s p setup_noninterference [OF h1 h2 h3 h4 h5, of default_server_url default_server_user]
    by simp
qed

section \<open>The first match and the concrete scenario\<close>

lemma rmatch_lits_prefix: "rmatch (lits l @ r) s = Some g \<Longrightarrow> prefix l s"
proof (induction l arbitrary: s g)
  case Nil
  then show ?case by simp
next
  case (Cons c l)
  then show ?case by (cases s) (auto simp: lits_def keep_def split: if_splits)
qed

lemma keep_False: "keep False c = (\<lambda>g. g)"
  by (simp add: keep_def fun_eq_iff)

lemma rmatch_lits_skip: "rmatch (lits l @ r) (l @ s) = rmatch r s"
  by (induction l) (simp_all add: lits_def keep_False option.map_ident)

lemma search_skip:
  assumes "\<And>u. u \<noteq> [] \<Longrightarrow> suffix u pre \<Longrightarrow> rmatch items (u @ s) = None"
  shows "search items (pre @ s) = search items s"
  using assms
proof (induction pre)
  case Nil
  then show ?case by simp
next
  case (Cons c pre)
  have "rmatch items ((c # pre) @ s) = None"
    by (rule Cons.prems) simp_all
  moreover have "search items (pre @ s) = search items s"
    by (rule Cons.IH) (simp add: Cons.prems suffix_ConsI)
  ultimately show ?case by simp
qed

lemma search_hit: "rmatch items s = Some g \<Longrightarrow> search items s = Some g"
  by (cases s) simp_all

lemma prefix_append_cases:
  assumes "prefix l (u @ x)"
  obtains "prefix l u" | v where "l = u @ v" "prefix v x" "v \<noteq> []"
  using assms by (cases "l = u") (auto simp: prefix_append)

lemma literal_not_early:
  assumes "\<not> sublist l pre" and "suffix u pre" and "u \<noteq> []" and "prefix l x"
    and "hd l \<notin> set (tl l)"
  shows "\<not> prefix l (u @ x)"
proof
  assume "prefix l (u @ x)"
  then show False
  proof (cases rule: prefix_append_cases)
    case 1
    then have "sublist l pre"
      using assms(2) by (meson prefix_imp_sublist suffix_imp_sublist sublist_order.order_trans)
    with assms(1) show False by simp
  next
    case (2 v)
    from 2(1) assms(3) have "tl l = tl u @ v" by (cases u) auto
    then have "hd v \<in> set (tl l)" using 2(3) by (cases v) auto
    moreover have "hd v = hd l"
      using 2 assms(3,4) by (cases v; cases u) (auto simp: prefix_def)
    ultimately show False using assms(5) by simp
  qed
qed

lemma key_not_early:
  assumes "\<not> sublist ([34] @ key @ [34]) pre" and "suffix u pre" and "u \<noteq> []"
    and "34 \<notin> set key" and "key \<noteq> []" and "\<not> is_space (hd key)" and "hd key \<noteq> 58"
  shows "rmatch (key_re key) (u @ [34] @ key @ [34] @ rest) = None"
proof (rule ccontr)
  let ?l = "[34] @ key @ [34]"
  let ?r = "[Many False Whitespace, Once False (Chr 58), Many False Whitespace,
      Once False (Chr 34), Plus True (None_of [34]), Once False (Chr 34)]"
  assume "rmatch (key_re key) (u @ [34] @ key @ [34] @ rest) \<noteq> None"
  then obtain g where g: "rmatch (lits ?l @ ?r) (u @ ?l @ rest) = Some g"
    by (auto simp: key_re_def)
  then have "prefix ?l (u @ ?l @ rest)" by (rule rmatch_lits_prefix)
  then show False
  proof (cases rule: prefix_append_cases)
    case 1
    then have "sublist ?l pre"
      using assms(2) by (meson prefix_imp_sublist suffix_imp_sublist sublist_order.order_trans)
    with assms(1) show False by simp
  next
    case (2 v)
    from 2(2,3) obtain v' where v: "v = 34 # v'" by (cases v) (auto simp: prefix_def)
    from 2(1) assms(3) obtain u' where u: "u = 34 # u'" by (cases u) auto
    from 2(1) u v have e: "key @ [34] = u' @ 34 # v'" by simp
    have "v' = []"
    proof (rule ccontr)
      assume "v' \<noteq> []"
      then have "butlast (u' @ 34 # v') = u' @ 34 # butlast v'" by (simp add: butlast_append)
      with e have "key = u' @ 34 # butlast v'" by (metis butlast_snoc)
      with assms(4) show False by simp
    qed
    with e have "u' = key" by simp
    with u have "u @ ?l @ rest = ?l @ (key @ [34] @ rest)" by simp
    with g have "rmatch ?r (key @ [34] @ rest) = Some g"
      by (simp only: rmatch_lits_skip)
    then show False using assms(5,6,7) by (cases key) auto
  qed
qed

lemma search_server_first:
  assumes "\<not> str_in (py ''Artifactory.server'') pre"
    and "rmatch server_re (py ''Artifactory.server'' @ x) = Some g"
  shows "search server_re (pre @ py ''Artifactory.server'' @ x) = Some g"
proof -
  have "rmatch server_re (u @ py ''Artifactory.server'' @ x) = None"
    if "u \<noteq> []" "suffix u pre" for u
  proof (rule ccontr)
    assume "rmatch server_re (u @ py ''Artifactory.server'' @ x) \<noteq> None"
    then have "prefix (py ''Artifactory.server'') (u @ py ''Artifactory.server'' @ x)"
      unfolding server_re_def using rmatch_lits_prefix by blast
    moreover have "\<not> prefix (py ''Artifactory.server'') (u @ py ''Artifactory.server'' @ x)"
      by (rule literal_not_early[of _ pre])
        (use assms(1) that in \<open>simp_all add: str_in_sublist\<close>, simp add: py_def)
    ultimately show False by simp
  qed
  then have "search server_re (pre @ py ''Artifactory.server'' @ x)
      = search server_re (py ''Artifactory.server'' @ x)"
    by (rule search_skip)
  then show ?thesis using search_hit[OF assms(2)] by simp
qed

lemma search_key_first:
  assumes "\<not> str_in ([34] @ key @ [34]) pre"
    and "34 \<notin> set key" and "key \<noteq> []" and "\<not> is_space (hd key)" and "hd key \<noteq> 58"
    and "rmatch (key_re key) ([34] @ key @ [34] @ x) = Some g"
  shows "search (key_re key) (pre @ [34] @ key @ [34] @ x) = Some g"
proof -
  have "rmatch (key_re key) (u @ [34] @ key @ [34] @ x) = None"
    if "u \<noteq> []" "suffix u pre" for u
    by (rule key_not_early[of _ pre]) (use assms that in \<open>simp_all add: str_in_sublist\<close>)
  then have "search (key_re key) (pre @ [34] @ key @ [34] @ x)
      = search (key_re key) ([34] @ key @ [34] @ x)"
    by (rule search_skip)
  then show ?thesis using search_hit[OF assms(6)] by simp
qed


lemma block_in_output:
  assumes "b \<in> set (pipeline_stages t u v)"
  shows "str_in b (convert_pipeline t u v)"
proof -
  from assms have "sublist b (join nl (pipeline_stages t u v))"
    by (rule sublist_join)
  then show ?thesis
    unfolding convert_pipeline_stages str_in_sublist sublist_def by (metis append.assoc)
qed

lemma upload_stage_command:
  \<open>str_in (py ''jf 'rt u '' @ p @ py '' '' @ tg @ [39]) (upload_stage p tg)\<close>
proof -
  have "\<exists>a b. upload_stage p tg = a @ (py ''jf 'rt u '' @ p @ py '' '' @ tg @ [39]) @ b"
    unfolding upload_stage_def
    by (intro exI[of _ \<open>py ''        '' @ nl @
     py ''        stage('Upload Artifact') {'' @ nl @
     py ''            steps {'' @ nl @
     py ''                script {'' @ nl @
     py ''                    echo '=== Creating and Uploading Artifact ==='' @ [39] @ nl @
     py ''                    '' @ nl @
     py ''                    // Create test file'' @ nl @
     py ''                    sh 'echo "Build ${BUILD_NUMBER} - $(date)" > artifactory-test-${BUILD_NUMBER}.txt'' @ [39] @ nl @
     py ''                    '' @ nl @
     py ''                    // Upload (converted from Artifactory plugin spec)'' @ nl @
     py ''                    ''\<close>] exI) (simp add: py_def)
  then show ?thesis by (auto simp: str_in_sublist sublist_def)
qed

text \<open>
  C2 (as amended). Only the first match of each pattern is used, so the three fragments of
  the scenario must be the first of their kind: no \<open>Artifactory.server\<close> before the server
  declaration, no \<open>"pattern"\<close> before the pattern field, no \<open>"target"\<close> before the target
  field. Then, with the upload and publish markers and without the Setup and Ping markers,
  the document is exactly head, Configure block for \<open>myserver\<close>, Upload block for \<open>*.zip\<close>
  and \<open>libs-release/\<close>, Publish block, tail: no Ping block and no Setup block.
\<close>

theorem concrete_scenario:
  assumes \<open>t = pre @ py ''Artifactory.server('myserver')'' @ post\<close>
    and \<open>\<not> str_in (py ''Artifactory.server'') pre\<close>
    and \<open>t = p1 @ py ''"pattern": "*.zip"'' @ p2\<close>
    and \<open>\<not> str_in (py ''"pattern"'') p1\<close>
    and \<open>t = q1 @ py ''"target": "libs-release/"'' @ q2\<close>
    and \<open>\<not> str_in (py ''"target"'') q1\<close>
    and \<open>str_in (py ''server.upload'') t\<close>
    and \<open>str_in (py ''publishBuildInfo'') t\<close>
    and \<open>\<not> str_in (py ''stage('Setup Artifactory')'') t\<close>
    and \<open>\<not> str_in (py ''stage('Ping Artifactory')'') t\<close>
  shows \<open>convert_pipeline t u v =
           document_head (py ''myserver'') @
           configure_stage (py ''myserver'') u v @ nl @
           upload_stage (py ''*.zip'') (py ''libs-release/'') @ nl @
           publish_stage @ document_tail \<and>
         map stage_title (pipeline_stages t u v) =
           [Some (py ''Configure JFrog Server''), Some (py ''Upload Artifact''),
            Some (py ''Publish Build Info'')] \<and>
         str_in (py ''jf 'config add myserver --url='') (convert_pipeline t u v) \<and>
         str_in (py ''jf 'rt u *.zip libs-release/'' @ [39]) (convert_pipeline t u v)\<close>
proof -
  have \<open>rmatch server_re (py ''Artifactory.server'' @ py ''('myserver')'' @ post)
      = Some (py ''myserver'')\<close>
    by (simp add: server_re_def lits_def py_def keep_def is_space_def)
  from search_server_first[OF assms(2) this]
  have \<open>search server_re t = Some (py ''myserver'')\<close>
    using assms(1) by (simp add: py_def)
  then have sid: \<open>extract_server_id t = py ''myserver''\<close>
    by (simp add: extract_server_id_def)
  have \<open>rmatch (key_re (py ''pattern'')) ([34] @ py ''pattern'' @ [34] @ py '': "*.zip"'' @ p2)
      = Some (py ''*.zip'')\<close>
    by (simp add: key_re_def lits_def py_def keep_def is_space_def)
  from search_key_first[OF _ _ _ _ _ this, of p1]
  have \<open>search (key_re (py ''pattern'')) (p1 @ [34] @ py ''pattern'' @ [34] @ py '': "*.zip"'' @ p2)
      = Some (py ''*.zip'')\<close>
    using assms(4) by (simp add: py_def is_space_def)
  then have pat: \<open>search pattern_re t = Some (py ''*.zip'')\<close>
    using assms(3) by (simp add: pattern_re_def py_def)
  have \<open>rmatch (key_re (py ''target''))
      ([34] @ py ''target'' @ [34] @ py '': "libs-release/"'' @ q2) = Some (py ''libs-release/'')\<close>
    by (simp add: key_re_def lits_def py_def keep_def is_space_def)
  from search_key_first[OF _ _ _ _ _ this, of q1]
  have \<open>search (key_re (py ''target''))
      (q1 @ [34] @ py ''target'' @ [34] @ py '': "libs-release/"'' @ q2) = Some (py ''libs-release/'')\<close>
    using assms(6) by (simp add: py_def is_space_def)
  then have tgt: \<open>search target_re t = Some (py ''libs-release/'')\<close>
    using assms(5) by (simp add: target_re_def py_def)
  have spec: \<open>extract_upload_spec t = (py ''*.zip'', py ''libs-release/'')\<close>
    using pat tgt by (simp add: extract_upload_spec_def)
  have flags: "\<not> has_ping t" "has_upload t" "has_publish t"
    using assms(7,8,10) by (simp_all add: has_ping_def has_upload_def has_publish_def)
  have stages: \<open>pipeline_stages t u v =
      [configure_stage (py ''myserver'') u v, upload_stage (py ''*.zip'') (py ''libs-release/''),
       publish_stage]\<close>
    using sid spec flags by (simp add: pipeline_stages_eq)
  have a: \<open>convert_pipeline t u v =
           document_head (py ''myserver'') @
           configure_stage (py ''myserver'') u v @ nl @
           upload_stage (py ''*.zip'') (py ''libs-release/'') @ nl @
           publish_stage @ document_tail\<close>
    by (simp add: convert_pipeline_stages stages sid)
  have b: \<open>map stage_title (pipeline_stages t u v) =
           [Some (py ''Configure JFrog Server''), Some (py ''Upload Artifact''),
            Some (py ''Publish Build Info'')]\<close>
    by (simp add: stages title_configure title_upload title_publish)
  have \<open>str_in (py ''jf 'config add myserver --url='')
      (py ''jf 'config add '' @ py ''myserver'' @ py '' --url='' @ u @ py '' --user='' @ v @
       py '' --password=YOUR_PASSWORD --interactive=false'' @ [39])\<close>
    unfolding str_in_sublist sublist_def
    by (intro exI[of _ "[]"] exI) (simp add: py_def)
  then have \<open>str_in (py ''jf 'config add myserver --url='') (configure_stage (py ''myserver'') u v)\<close>
    using configure_stage_password str_in_trans by blast
  moreover have \<open>str_in (configure_stage (py ''myserver'') u v) (convert_pipeline t u v)\<close>
    by (rule block_in_output) (simp add: stages)
  ultimately have c: \<open>str_in (py ''jf 'config add myserver --url='') (convert_pipeline t u v)\<close>
    using str_in_trans by blast
  have \<open>str_in (py ''jf 'rt u '' @ py ''*.zip'' @ py '' '' @ py ''libs-release/'' @ [39])
      (upload_stage (py ''*.zip'') (py ''libs-release/''))\<close>
    by (rule upload_stage_command)
  then have \<open>str_in (py ''jf 'rt u *.zip libs-release/'' @ [39])
      (upload_stage (py ''*.zip'') (py ''libs-release/''))\<close>
    by (simp add: py_def)
  moreover have \<open>str_in (upload_stage (py ''*.zip'') (py ''libs-release/'')) (convert_pipeline t u v)\<close>
    by (rule block_in_output) (simp add: stages)
  ultimately have d: \<open>str_in (py ''jf 'rt u *.zip libs-release/'' @ [39]) (convert_pipeline t u v)\<close>
    using str_in_trans by blast
  show ?thesis using a b c d by blast
qed


text \<open>
  The amended C2 at a pipeline script with one server declaration and one upload spec.
\<close>

theorem concrete_scenario_witness:
  \<open>scenario_text =
     py ''node { def server = '' @ py ''Artifactory.server('myserver')'' @
     (py ''; def spec = """{"files": [{"pattern": "*.zip", "target": "libs-release/"}]}"""; '' @
      py ''server.upload(spec); server.publishBuildInfo(info) }'') \<and>
   \<not> str_in (py ''Artifactory.server'') (py ''node { def server = '') \<and>
   scenario_text =
     py ''node { def server = Artifactory.server('myserver'); def spec = """{"files": [{'' @
     py ''"pattern": "*.zip"'' @
     py '', "target": "libs-release/"}]}"""; server.upload(spec); server.publishBuildInfo(info) }'' \<and>
   \<not> str_in (py ''"pattern"'')
     (py ''node { def server = Artifactory.server('myserver'); def spec = """{"files": [{'') \<and>
   scenario_text =
     py ''node { def server = Artifactory.server('myserver'); def spec = """{"files": [{"pattern": "*.zip", '' @
     py ''"target": "libs-release/"'' @
     py ''}]}"""; server.upload(spec); server.publishBuildInfo(info) }'' \<and>
   \<not> str_in (py ''"target"'')
     (py ''node { def server = Artifactory.server('myserver'); def spec = """{"files": [{"pattern": "*.zip", '') \<and>
   str_in (py ''server.upload'') scenario_text \<and>
   str_in (py ''publishBuildInfo'') scenario_text \<and>
   \<not> str_in (py ''stage('Setup Artifactory')'') scenario_text \<and>
   \<not> str_in (py ''stage('Ping Artifactory')'') scenario_text \<and>
   convert_pipeline scenario_text default_server_url default_server_user =
     document_head (py ''myserver'') @
     configure_stage (py ''myserver'') default_server_url default_server_user @ nl @
     upload_stage (py ''*.zip'') (py ''libs-release/'') @ nl @
     publish_stage @ document_tail \<and>
   map stage_title (pipeline_stages scenario_text default_server_url default_server_user) =
     [Some (py ''Configure JFrog Server''), Some (py ''Upload Artifact''),
      Some (py ''Publish Build Info'')]\<close>
proof -
  have h1: \<open>scenario_text =
     py ''node { def server = '' @ py ''Artifactory.server('myserver')'' @
     (py ''; def spec = """{"files": [{"pattern": "*.zip", "target": "libs-release/"}]}"""; '' @
      py ''server.upload(spec); server.publishBuildInfo(info) }'')\<close>
    by (simp add: scenario_text_def py_def)
  have h2: \<open>\<not> str_in (py ''Artifactory.server'') (py ''node { def server = '')\<close>
    by (simp add: py_def)
  have h3: \<open>scenario_text =
     py ''node { def server = Artifactory.server('myserver'); def spec = """{"files": [{'' @
     py ''"pattern": "*.zip"'' @
     py '', "target": "libs-release/"}]}"""; server.upload(spec); server.publishBuildInfo(info) }''\<close>
    by (simp add: scenario_text_def py_def)
  have h4: \<open>\<not> str_in (py ''"pattern"'')
     (py ''node { def server = Artifactory.server('myserver'); def spec = """{"files": [{'')\<close>
    by (simp add: py_def)
  have h5: \<open>scenario_text =
     py ''node { def server = Artifactory.server('myserver'); def spec = """{"files": [{"pattern": "*.zip", '' @
     py ''"target": "libs-release/"'' @
     py ''}]}"""; server.upload(spec); server.publishBuildInfo(info) }''\<close>
    by (simp add: scenario_text_def py_def)
  have h6: \<open>\<not> str_in (py ''"target"'')
     (py ''node { def server = Artifactory.server('myserver'); def spec = """{"files": [{"pattern": "*.zip", '')\<close>
    by (simp add: py_def)
  have h7: \<open>str_in (py ''server.upload'') scenario_text\<close>
    by (simp add: scenario_text_def py_def)
  have h8: \<open>str_in (py ''publishBuildInfo'') scenario_text\<close>
    by (simp add: scenario_text_def py_def)
  have h9: \<open>\<not> str_in (py ''stage('Setup Artifactory')'') scenario_text\<close>
    by (simp add: scenario_text_def py_def)
  have h10: \<open>\<not> str_in (py ''stage('Ping Artifactory')'') scenario_text\<close>
    by (simp add: scenario_text_def py_def)
  from concrete_scenario [OF h1 h2 h3 h4 h5 h6 h7 h8 h9 h10,
      of default_server_url default_server_user]
  show ?thesis
    using h1 h2 h3 h4 h5 h6 h7 h8 h9 h10 by blast
qed

text \<open>
  C2 as stated fails: \<open>two_servers_text\<close> holds every fragment the scenario asks for and
  neither stage marker, yet the server id is \<open>a\<close>, the Configure block is the one for \<open>a\<close>,
  and \<open>myserver\<close> occurs nowhere in the document.
\<close>

theorem concrete_scenario_counterexample:
  \<open>str_in (py ''Artifactory.server('myserver')'') two_servers_text \<and>
   str_in (py ''"pattern": "*.zip"'') two_servers_text \<and>
   str_in (py ''"target": "libs-release/"'') two_servers_text \<and>
   str_in (py ''server.upload'') two_servers_text \<and>
   str_in (py ''publishBuildInfo'') two_servers_text \<and>
   \<not> str_in (py ''stage('Setup Artifactory')'') two_servers_text \<and>
   \<not> str_in (py ''stage('Ping Artifactory')'') two_servers_text \<and>
   extract_server_id two_servers_text = py ''a'' \<and>
   hd (pipeline_stages two_servers_text default_server_url default_server_user) =
     configure_stage (py ''a'') default_server_url default_server_user \<and>
   \<not> str_in (py ''myserver'')
     (convert_pipeline two_servers_text default_server_url default_server_user)\<close>
proof -
  have m: \<open>str_in (py ''Artifactory.server('myserver')'') two_servers_text\<close>
    \<open>str_in (py ''"pattern": "*.zip"'') two_servers_text\<close>
    \<open>str_in (py ''"target": "libs-release/"'') two_servers_text\<close>
    \<open>str_in (py ''server.upload'') two_servers_text\<close>
    \<open>str_in (py ''publishBuildInfo'') two_servers_text\<close>
    \<open>\<not> str_in (py ''stage('Setup Artifactory')'') two_servers_text\<close>
    \<open>\<not> str_in (py ''stage('Ping Artifactory')'') two_servers_text\<close>
    by (simp_all add: two_servers_text_def py_def)
  have sid: \<open>extract_server_id two_servers_text = py ''a''\<close>
    by (simp add: two_servers_text_def py_def extract_server_id_def server_re_def lits_def
        keep_def is_space_def)
  have spec: \<open>extract_upload_spec two_servers_text = (py ''*.zip'', py ''libs-release/'')\<close>
    by (simp add: two_servers_text_def py_def extract_upload_spec_def pattern_re_def
        target_re_def key_re_def lits_def keep_def is_space_def)
  have flags: "\<not> has_ping two_servers_text" "has_upload two_servers_text"
    "has_publish two_servers_text"
    using m by (simp_all add: has_ping_def has_upload_def has_publish_def)
  have hd: \<open>hd (pipeline_stages two_servers_text default_server_url default_server_user) =
     configure_stage (py ''a'') default_server_url default_server_user\<close>
    by (simp add: pipeline_stages_eq sid)
  have out: \<open>convert_pipeline two_servers_text default_server_url default_server_user =
     document_head (py ''a'') @
     configure_stage (py ''a'') default_server_url default_server_user @ nl @
     upload_stage (py ''*.zip'') (py ''libs-release/'') @ nl @
     publish_stage @ document_tail\<close>
    by (simp add: convert_pipeline_stages pipeline_stages_eq sid spec flags)
  have no: \<open>\<not> str_in (py ''myserver'')
     (convert_pipeline two_servers_text default_server_url default_server_user)\<close>
    unfolding out
    by (simp add: document_head_def configure_stage_def upload_stage_def publish_stage_def
        document_tail_def default_server_url_def default_server_user_def nl_def py_def)
  show ?thesis using m sid hd no by blast
qed

end
